theory Spec2Isabelle
  imports Complex_Main
begin

section \<open>JavaScript values used by the components\<close>

text \<open>
  JavaScript numbers are modelled as reals (NaN and the infinities are not represented);
  where the code multiplies two numbers, the rounded product of the machine is a
  parameter. An object of the rendering engine is known by its identity only.
  A method call on \<open>null\<close> or \<open>undefined\<close> raises a \<open>TypeError\<close>.
\<close>

datatype js_error = TypeError

type_synonym handle = nat

text \<open>
  A plain JavaScript array handed in as a property: \<open>ref\<close> is the identity of the array
  object (what \<open>!==\<close> compares), \<open>elems\<close> its numbers at the time of the call.
\<close>

record jsarray =
  ref :: nat
  elems :: "real list"

datatype typed_array =
    Float64Array "real list"
  | Uint16Array "nat list"
  | Uint32Array "nat list"

text \<open>Truncation towards zero, the integer part that \<open>ToUint16\<close>, \<open>ToUint32\<close> and \<open>ToIndex\<close> take.\<close>

definition js_trunc :: "real \<Rightarrow> int" where
  "js_trunc x = (if x < 0 then - \<lfloor>- x\<rfloor> else \<lfloor>x\<rfloor>)"

definition ToUint16 :: "real \<Rightarrow> nat" where
  "ToUint16 x = nat (js_trunc x mod 2 ^ 16)"

definition ToUint32 :: "real \<Rightarrow> nat" where
  "ToUint32 x = nat (js_trunc x mod 2 ^ 32)"

text \<open>
  The three constructors share one static method \<open>from\<close>. It builds its result with the
  constructor it finds as its \<open>this\<close> value, and raises a \<open>TypeError\<close> when that value is not
  a constructor: \<open>None\<close> stands for the \<open>undefined\<close> that a bare function call passes.
\<close>

datatype typed_array_constructor =
    Float64Array_constructor
  | Uint16Array_constructor
  | Uint32Array_constructor

definition TypedArray_from :: "typed_array_constructor option \<Rightarrow> real list \<Rightarrow> js_error + typed_array" where
  "TypedArray_from this_value xs =
     (case this_value of
        None \<Rightarrow> Inl TypeError
      | Some Float64Array_constructor \<Rightarrow> Inr (Float64Array xs)
      | Some Uint16Array_constructor \<Rightarrow> Inr (Uint16Array (map ToUint16 xs))
      | Some Uint32Array_constructor \<Rightarrow> Inr (Uint32Array (map ToUint32 xs)))"

text \<open>The method call \<open>Float64Array.from(xs)\<close>: \<open>this\<close> is the constructor.\<close>

definition Float64Array_from :: "real list \<Rightarrow> js_error + typed_array" where
  "Float64Array_from xs = TypedArray_from (Some Float64Array_constructor) xs"

text \<open>
  \<open>f(xs)\<close> where \<open>f\<close> is the value of \<open>C.from\<close>, read off the constructor \<open>C\<close> beforehand: the
  call is a bare one, so whatever \<open>C\<close> was, \<open>this\<close> is \<open>undefined\<close>.
\<close>

definition call_detached_from :: "typed_array_constructor \<Rightarrow> real list \<Rightarrow> js_error + typed_array" where
  "call_detached_from C xs = TypedArray_from None xs"

text \<open>\<open>new Uint32Array(len)\<close>: \<open>len\<close> is truncated, the elements start at 0.\<close>

definition new_Uint32Array :: "real \<Rightarrow> nat list" where
  "new_Uint32Array len = replicate (nat (js_trunc len)) 0"

text \<open>
  \<open>values[i] = v\<close> on a \<open>Uint32Array\<close>: the number is converted by \<open>ToUint32\<close>, and a
  store beyond the end of a typed array is ignored (the array never grows).
\<close>

definition u32_store :: "nat list \<Rightarrow> nat \<Rightarrow> real \<Rightarrow> nat list" where
  "u32_store values i v = (if i < length values then values[i := ToUint32 v] else values)"

section \<open>PolyData\<close>

text \<open>
  The properties of a \<open>PolyData\<close> element. \<open>None\<close> is \<open>null\<close> (or, for the properties that
  have no default, \<open>undefined\<close>); \<open>defaultProps\<close> has already replaced an undefined
  \<open>port\<close>, \<open>points\<close> or \<open>connectivity\<close>.
\<close>

record PolyData_props =
  port :: nat
  points :: "jsarray option"
  verts :: "jsarray option"
  lines :: "jsarray option"
  polys :: "jsarray option"
  strips :: "jsarray option"
  connectivity :: "string option"

definition defaultProps :: PolyData_props where
  "defaultProps = \<lparr> port = 0, points = Some \<lparr> ref = 0, elems = [] \<rparr>, verts = None,
     lines = None, polys = None, strips = None, connectivity = Some ''manual'' \<rparr>"

text \<open>The five arrays of the native \<open>vtkPolyData\<close>, reached by \<open>getPoints()\<close> ... \<open>getStrips()\<close>.\<close>

datatype slot = Points | Verts | Lines | Polys | Strips

text \<open>The calls the component makes on the objects it holds, in the order it makes them.\<close>

datatype call =
    Call_setData slot typed_array
  | Call_modified
  | Call_dataChanged handle
  | Call_setInputData handle nat

record PolyData =
  polydata :: "slot \<Rightarrow> typed_array"
  representation :: "handle option"
  downstream :: "handle option"
  calls :: "call list"

text \<open>
  \<open>render()\<close>, the two context consumers: \<open>this.representation\<close> is assigned on every pass,
  \<open>this.downstream\<close> only while it is still unset (\<open>if (!this.downstream)\<close>).
\<close>

definition render :: "handle option \<Rightarrow> handle option \<Rightarrow> PolyData \<Rightarrow> PolyData" where
  "render representation_ctx downstream_ctx this =
     (let this = this\<lparr> representation := representation_ctx \<rparr>
      in if downstream this = None then this\<lparr> downstream := downstream_ctx \<rparr> else this)"

fun render_passes :: "(handle option \<times> handle option) list \<Rightarrow> PolyData \<Rightarrow> PolyData" where
  "render_passes [] this = this"
| "render_passes ((r, d) # ctxs) this = render_passes ctxs (render r d this)"

text \<open>\<open>this.polydata.getX().setData(array)\<close>\<close>

definition setData :: "slot \<Rightarrow> typed_array \<Rightarrow> PolyData \<Rightarrow> PolyData" where
  "setData s a this =
     this\<lparr> polydata := (polydata this)(s := a), calls := calls this @ [Call_setData s a] \<rparr>"

text \<open>
  The test \<open>x && (!previous || x !== previous.x)\<close>. The second argument is \<open>None\<close> when there
  is no previous property object and \<open>Some (previous.x)\<close> otherwise.
\<close>

fun attr_changed :: "jsarray option \<Rightarrow> jsarray option option \<Rightarrow> bool" where
  "attr_changed None _ = False"
| "attr_changed (Some a) None = True"
| "attr_changed (Some a) (Some None) = True"
| "attr_changed (Some a) (Some (Some b)) = (ref a \<noteq> ref b)"

text \<open>
  One block \<open>if (x && (!previous || x !== previous.x)) { ...setData(conv(x)); changeDetected = true; }\<close>
  of \<open>update\<close>, on the pair of the component and \<open>changeDetected\<close>. The argument
  \<open>conv(x)\<close> is evaluated before \<open>setData\<close> is called: when it raises, nothing is written.
\<close>

definition push_attr ::
  "slot \<Rightarrow> (real list \<Rightarrow> js_error + typed_array) \<Rightarrow> jsarray option \<Rightarrow> jsarray option option
     \<Rightarrow> PolyData \<times> bool \<Rightarrow> (js_error \<times> PolyData) + (PolyData \<times> bool)" where
  "push_attr s conv x previous_x st =
     (case x of
        None \<Rightarrow> Inr st
      | Some a \<Rightarrow>
          if attr_changed x previous_x
          then (case conv (elems a) of
                  Inl e \<Rightarrow> Inl (e, fst st)
                | Inr converted \<Rightarrow> Inr (setData s converted (fst st), True))
          else Inr st)"

text \<open>Going on with the next statement unless the one before raised.\<close>

definition and_then ::
  "(js_error \<times> PolyData) + 'a \<Rightarrow> ('a \<Rightarrow> (js_error \<times> PolyData) + 'b) \<Rightarrow> (js_error \<times> PolyData) + 'b" where
  "and_then r f = (case r of Inl e \<Rightarrow> Inl e | Inr st \<Rightarrow> f st)"

text \<open>The loop \<open>for (let i = 0; i < nbPoints; i++) values[i + 1] = i\<close> of the modes \<open>points\<close> and \<open>strips\<close>.\<close>

function points_loop :: "real \<Rightarrow> nat \<Rightarrow> nat list \<Rightarrow> nat list" where
  "points_loop nbPoints i values =
     (if real i < nbPoints then points_loop nbPoints (i + 1) (u32_store values (i + 1) (real i))
      else values)"
  by pat_completeness auto
termination
proof (relation "measure (\<lambda>(nbPoints, i, values). nat \<lceil>nbPoints\<rceil> - i)")
  show "wf (measure (\<lambda>(nbPoints, i, values). nat \<lceil>nbPoints\<rceil> - i))" by simp
next
  fix nbPoints :: real and i :: nat and vs :: "nat list"
  assume "real i < nbPoints"
  then have "i < nat \<lceil>nbPoints\<rceil>" by linarith
  then show "((nbPoints, i + 1, u32_store vs (i + 1) (real i)), (nbPoints, i, vs))
      \<in> measure (\<lambda>(nbPoints, i, values). nat \<lceil>nbPoints\<rceil> - i)"
    by simp
qed

declare points_loop.simps [simp del]

text \<open>
  The block of the modes \<open>points\<close> and \<open>strips\<close>:
  \<open>values = new Uint32Array(nbPoints + 1); values[0] = nbPoints;\<close> and the loop.
\<close>

definition points_values :: "real \<Rightarrow> nat list" where
  "points_values nbPoints =
     points_loop nbPoints 0 (u32_store (new_Uint32Array (nbPoints + 1)) 0 nbPoints)"

text \<open>
  The loop of the mode \<open>triangles\<close>:
  \<open>for (let i = 0; i < nbPoints; i += 3) { values[offset++] = 3; values[offset++] = i + 0; ... }\<close>
\<close>

function triangles_loop :: "real \<Rightarrow> nat \<Rightarrow> nat \<Rightarrow> nat list \<Rightarrow> nat list" where
  "triangles_loop nbPoints i offset values =
     (if real i < nbPoints
      then triangles_loop nbPoints (i + 3) (offset + 4)
             (u32_store (u32_store (u32_store (u32_store values offset 3)
                (offset + 1) (real i + 0)) (offset + 2) (real i + 1)) (offset + 3) (real i + 2))
      else values)"
  by pat_completeness auto
termination
proof (relation "measure (\<lambda>(nbPoints, i, offset, values). nat \<lceil>nbPoints\<rceil> - i)")
  show "wf (measure (\<lambda>(nbPoints, i, offset, values). nat \<lceil>nbPoints\<rceil> - i))" by simp
next
  fix nbPoints :: real and i offset :: nat and vs :: "nat list"
  assume "real i < nbPoints"
  then have "i < nat \<lceil>nbPoints\<rceil>" by linarith
  then show "((nbPoints, i + 3, offset + 4,
        u32_store (u32_store (u32_store (u32_store vs offset 3)
          (offset + 1) (real i + 0)) (offset + 2) (real i + 1)) (offset + 3) (real i + 2)),
       (nbPoints, i, offset, vs))
      \<in> measure (\<lambda>(nbPoints, i, offset, values). nat \<lceil>nbPoints\<rceil> - i)"
    by simp
qed

declare triangles_loop.simps [simp del]

definition triangles_values :: "real \<Rightarrow> nat list" where
  "triangles_values nbPoints =
     triangles_loop nbPoints 0 0 (new_Uint32Array (nbPoints + nbPoints / 3))"

text \<open>A string is truthy unless it is \<open>null\<close>, \<open>undefined\<close> or empty.\<close>

definition truthy :: "string option \<Rightarrow> bool" where
  "truthy c = (c \<noteq> None \<and> c \<noteq> Some [])"

text \<open>
  The connectivity block of \<open>update\<close>: the guard
  \<open>connectivity && (connectivity || !previous || connectivity !== previous.connectivity)\<close>
  and the \<open>switch\<close>, whose default case does nothing.
\<close>

definition update_connectivity ::
  "PolyData_props \<Rightarrow> PolyData_props option \<Rightarrow> jsarray \<Rightarrow> PolyData \<times> bool \<Rightarrow> PolyData \<times> bool" where
  "update_connectivity props previous pts st =
     (if truthy (connectivity props) \<and>
         (truthy (connectivity props) \<or> previous = None
            \<or> Some (connectivity props) \<noteq> map_option connectivity previous)
      then
        (let nbPoints = real (length (elems pts)) / 3
         in if connectivity props = Some ''points''
            then (setData Verts (Uint32Array (points_values nbPoints)) (fst st), True)
            else if connectivity props = Some ''triangles''
            then (setData Polys (Uint32Array (triangles_values nbPoints)) (fst st), True)
            else if connectivity props = Some ''strips''
            then (setData Strips (Uint32Array (points_values nbPoints)) (fst st), True)
            else st)
      else st)"

text \<open>The end of \<open>update\<close>: \<open>if (changeDetected) { modified(); if (this.representation) dataChanged(); }\<close>\<close>

definition notify :: "PolyData \<times> bool \<Rightarrow> PolyData" where
  "notify st =
     (if snd st
      then (let this = (fst st)\<lparr> calls := calls (fst st) @ [Call_modified] \<rparr>
            in case representation this of
                 None \<Rightarrow> this
               | Some r \<Rightarrow> this\<lparr> calls := calls this @ [Call_dataChanged r] \<rparr>)
      else fst st)"

text \<open>
  \<open>const cellFrom = points.length > 196608 ? Uint32Array.from : Uint16Array.from\<close>: the
  constructor whose \<open>from\<close> is read. Each \<open>cellFrom(x)\<close> below is then a bare call of that
  function.
\<close>

definition cellFrom :: "jsarray \<Rightarrow> typed_array_constructor" where
  "cellFrom pts = (if length (elems pts) > 196608 then Uint32Array_constructor else Uint16Array_constructor)"

text \<open>
  \<open>update(props, previous)\<close>. The first use of \<open>points\<close> is \<open>points.length\<close>, which raises
  when \<open>points\<close> is \<open>null\<close>, before anything is written. After that the blocks run in the
  order of the source, each one only if none before it raised.
\<close>

definition update ::
  "PolyData_props \<Rightarrow> PolyData_props option \<Rightarrow> PolyData \<Rightarrow> (js_error \<times> PolyData) + PolyData" where
  "update props previous this =
     (case points props of
        None \<Rightarrow> Inl (TypeError, this)
      | Some pts \<Rightarrow>
          and_then (push_attr Points Float64Array_from (points props) (map_option points previous)
                      (this, False)) (\<lambda>st.
          and_then (push_attr Verts (call_detached_from (cellFrom pts)) (verts props)
                      (map_option verts previous) st) (\<lambda>st.
          and_then (push_attr Lines (call_detached_from (cellFrom pts)) (lines props)
                      (map_option lines previous) st) (\<lambda>st.
          and_then (push_attr Polys (call_detached_from (cellFrom pts)) (polys props)
                      (map_option polys previous) st) (\<lambda>st.
          and_then (push_attr Strips (call_detached_from (cellFrom pts)) (strips props)
                      (map_option strips previous) st) (\<lambda>st.
          Inr (notify (update_connectivity props previous pts st))))))))"

text \<open>\<open>componentDidMount\<close>: \<open>this.update(this.props); this.downstream.setInputData(this.polydata, this.props.port)\<close>\<close>

definition componentDidMount :: "PolyData_props \<Rightarrow> PolyData \<Rightarrow> (js_error \<times> PolyData) + PolyData" where
  "componentDidMount props this =
     (case update props None this of
        Inl e \<Rightarrow> Inl e
      | Inr this \<Rightarrow>
          (case downstream this of
             None \<Rightarrow> Inl (TypeError, this)
           | Some d \<Rightarrow> Inr (this\<lparr> calls := calls this @ [Call_setInputData d (port props)] \<rparr>)))"

text \<open>\<open>componentDidUpdate\<close>: \<open>this.update(this.props, prevProps)\<close>\<close>

definition componentDidUpdate ::
  "PolyData_props \<Rightarrow> PolyData_props \<Rightarrow> PolyData \<Rightarrow> (js_error \<times> PolyData) + PolyData" where
  "componentDidUpdate props prevProps this = update props (Some prevProps) this"

section \<open>View and MultiViewRoot\<close>

text \<open>The container element, known by what \<open>getBoundingClientRect()\<close> reports for it.\<close>

record DOMRect =
  width :: real
  height :: real

text \<open>The calls a view makes on the document, the resize observer and the engine's objects.\<close>

datatype view_call =
    Document_removeEventListener_keyup
  | ResizeObserver_observe handle
  | ResizeObserver_disconnect handle
  | Interactor_initialize handle
  | Interactor_bindEvents handle
  | Interactor_unbindEvents handle
  | RenderWindowView_setContainer handle "DOMRect option"
  | RenderWindowView_setSize handle real real
  | RenderWindow_removeRenderer handle "handle option"
  | RenderWindow_removeView handle "handle option"
  | RenderWindow_render handle
  | Object_delete handle

subsection \<open>View\<close>

record View =
  v_containerRef :: "DOMRect option"
  v_renderWindow :: "handle option"
  v_renderer :: "handle option"
  v_openglRenderWindow :: "handle option"
  v_interactor :: "handle option"
  v_resizeObserver :: "handle option"
  v_calls :: "view_call list"

definition v_call :: "view_call \<Rightarrow> View \<Rightarrow> View" where
  "v_call c this = this\<lparr> v_calls := v_calls this @ [c] \<rparr>"

text \<open>
  \<open>View.onResize\<close>: nothing without a container; otherwise
  \<open>this.openglRenderWindow.setSize(Math.max(width, 10), Math.max(height, 10))\<close> and a render.
\<close>

definition View_onResize :: "View \<Rightarrow> (js_error \<times> View) + View" where
  "View_onResize this =
     (case v_containerRef this of
        None \<Rightarrow> Inr this
      | Some container \<Rightarrow>
          (case v_openglRenderWindow this of
             None \<Rightarrow> Inl (TypeError, this)
           | Some gl \<Rightarrow>
               (let this = v_call (RenderWindowView_setSize gl
                             (max (width container) 10) (max (height container) 10)) this
                in case v_renderWindow this of
                     None \<Rightarrow> Inl (TypeError, this)
                   | Some rw \<Rightarrow> Inr (v_call (RenderWindow_render rw) this))))"

text \<open>
  \<open>View.componentWillUnmount\<close>, statement by statement. A field that is \<open>null\<close> when a
  method is called on it raises.
\<close>

definition View_componentWillUnmount :: "View \<Rightarrow> (js_error \<times> View) + View" where
  "View_componentWillUnmount this =
     (let this = v_call Document_removeEventListener_keyup this
      in case v_resizeObserver this of
           None \<Rightarrow> Inl (TypeError, this)
         | Some ro \<Rightarrow>
     (let this = (v_call (ResizeObserver_disconnect ro) this)\<lparr> v_resizeObserver := None \<rparr>
      in case v_interactor this of
           None \<Rightarrow> Inl (TypeError, this)
         | Some i \<Rightarrow>
     (let this = v_call (Interactor_unbindEvents i) this
      in case v_openglRenderWindow this of
           None \<Rightarrow> Inl (TypeError, this)
         | Some gl \<Rightarrow>
     (let this = v_call (RenderWindowView_setContainer gl None) this
      in case v_renderWindow this of
           None \<Rightarrow> Inl (TypeError, this)
         | Some rw \<Rightarrow>
     (let this = v_call (RenderWindow_removeRenderer rw (v_renderer this)) this;
          this = v_call (RenderWindow_removeView rw (v_openglRenderWindow this)) this;
          this = (v_call (Object_delete i) this)\<lparr> v_interactor := None \<rparr>
      in case v_renderer this of
           None \<Rightarrow> Inl (TypeError, this)
         | Some r \<Rightarrow>
     (let this = (v_call (Object_delete r) this)\<lparr> v_renderer := None \<rparr>;
          this = (v_call (Object_delete rw) this)\<lparr> v_renderWindow := None \<rparr>;
          this = (v_call (Object_delete gl) this)\<lparr> v_openglRenderWindow := None \<rparr>
      in Inr this))))))"

subsection \<open>MultiViewRoot\<close>

record MultiViewRoot_props =
  triggerRender :: real
  disabled :: bool

text \<open>A timer callback: the only one scheduled is the \<open>render\<close> function of a render window.\<close>

datatype callback = render_of handle

text \<open>
  The fields of the component, and with them the parts of its surroundings it reads and
  writes: \<open>window.devicePixelRatio\<close> (\<open>None\<close> where the browser has none), what
  \<open>interactor.getContainer()\<close> holds, the timers that are scheduled and not yet fired,
  and the calls made so far.
\<close>

record MultiViewRoot =
  m_containerRef :: "DOMRect option"
  m_renderWindow :: "handle option"
  m_interactor :: "handle option"
  m_renderWindowView :: "handle option"
  m_resizeObserver :: handle
  m_initialized :: bool
  m_renderViewTimeout :: "nat option"
  window_devicePixelRatio :: "real option"
  interactor_container :: "DOMRect option"
  pending_timers :: "(nat \<times> callback) list"
  next_timer_id :: nat
  m_calls :: "view_call list"

definition m_call :: "view_call \<Rightarrow> MultiViewRoot \<Rightarrow> MultiViewRoot" where
  "m_call c this = this\<lparr> m_calls := m_calls this @ [c] \<rparr>"

text \<open>\<open>window.devicePixelRatio || 1\<close>: 1 replaces an undefined or zero ratio.\<close>

definition devicePixelRatio_or_1 :: "real option \<Rightarrow> real" where
  "devicePixelRatio_or_1 d = (case d of None \<Rightarrow> 1 | Some x \<Rightarrow> if x = 0 then 1 else x)"

text \<open>
  \<open>MultiViewRoot.onResize\<close>. The product \<open>width * devicePixelRatio\<close> is a product of
  doubles, rounded as the machine rounds it: \<open>times_double\<close> stands for that operation, which
  the definitions take as a parameter.
\<close>

definition MultiViewRoot_onResize ::
  "(real \<Rightarrow> real \<Rightarrow> real) \<Rightarrow> MultiViewRoot \<Rightarrow> (js_error \<times> MultiViewRoot) + MultiViewRoot" where
  "MultiViewRoot_onResize times_double this =
     (case m_containerRef this of
        None \<Rightarrow> Inr this
      | Some container \<Rightarrow>
          (let devicePixelRatio = devicePixelRatio_or_1 (window_devicePixelRatio this);
               w = \<lfloor>times_double (width container) devicePixelRatio\<rfloor>;
               h = \<lfloor>times_double (height container) devicePixelRatio\<rfloor>
           in case m_renderWindowView this of
                None \<Rightarrow> Inl (TypeError, this)
              | Some view \<Rightarrow>
                  (let this = m_call (RenderWindowView_setSize view
                                (real_of_int (max w 10)) (real_of_int (max h 10))) this
                   in case m_renderWindow this of
                        None \<Rightarrow> Inl (TypeError, this)
                      | Some rw \<Rightarrow> Inr (m_call (RenderWindow_render rw) this))))"

text \<open>
  \<open>MultiViewRoot.update\<close>: when the counter differs from the previous one,
  \<open>this.renderViewTimeout = setTimeout(this.renderWindow.render, 0)\<close>. The callback is the
  function read from the render window at that moment.
\<close>

definition MultiViewRoot_update ::
  "MultiViewRoot_props \<Rightarrow> MultiViewRoot_props option \<Rightarrow> MultiViewRoot
     \<Rightarrow> (js_error \<times> MultiViewRoot) + MultiViewRoot" where
  "MultiViewRoot_update props previous this =
     (case previous of
        None \<Rightarrow> Inr this
      | Some prev \<Rightarrow>
          if triggerRender props \<noteq> triggerRender prev
          then (case m_renderWindow this of
                  None \<Rightarrow> Inl (TypeError, this)
                | Some rw \<Rightarrow>
                    Inr (this\<lparr> pending_timers := pending_timers this @ [(next_timer_id this, render_of rw)],
                              m_renderViewTimeout := Some (next_timer_id this),
                              next_timer_id := next_timer_id this + 1 \<rparr>))
          else Inr this)"

text \<open>
  \<open>MultiViewRoot.componentDidMount\<close>. \<open>ResizeObserver.observe\<close> raises when it is given
  \<open>null\<close> instead of an element.
\<close>

definition MultiViewRoot_componentDidMount ::
  "(real \<Rightarrow> real \<Rightarrow> real) \<Rightarrow> MultiViewRoot_props \<Rightarrow> MultiViewRoot
     \<Rightarrow> (js_error \<times> MultiViewRoot) + MultiViewRoot" where
  "MultiViewRoot_componentDidMount times_double props this =
     (if \<not> disabled props
      then (case m_renderWindowView this of
              None \<Rightarrow> Inl (TypeError, this)
            | Some view \<Rightarrow>
        (let this = m_call (RenderWindowView_setContainer view (m_containerRef this)) this
         in case m_interactor this of
              None \<Rightarrow> Inl (TypeError, this)
            | Some i \<Rightarrow>
        (let this = m_call (Interactor_initialize i) this
         in if m_containerRef this = None then Inl (TypeError, this)
            else
        (let this = m_call (ResizeObserver_observe (m_resizeObserver this)) this
         in case MultiViewRoot_onResize times_double this of
              Inl e \<Rightarrow> Inl e
            | Inr this \<Rightarrow> MultiViewRoot_update props None (this\<lparr> m_initialized := True \<rparr>)))))
      else Inr this)"

text \<open>\<open>MultiViewRoot.componentDidUpdate\<close>\<close>

definition MultiViewRoot_componentDidUpdate ::
  "MultiViewRoot_props \<Rightarrow> MultiViewRoot_props \<Rightarrow> MultiViewRoot
     \<Rightarrow> (js_error \<times> MultiViewRoot) + MultiViewRoot" where
  "MultiViewRoot_componentDidUpdate props prevProps this =
     MultiViewRoot_update props (Some prevProps) this"

text \<open>
  \<open>MultiViewRoot.bindInteractorEvents\<close>, which the views under the root call: the
  interactor lets go of the container it has, if any, and binds to the new one, if any.
\<close>

definition bindInteractorEvents :: "DOMRect option \<Rightarrow> MultiViewRoot \<Rightarrow> MultiViewRoot" where
  "bindInteractorEvents container this =
     (case m_interactor this of
        None \<Rightarrow> this
      | Some i \<Rightarrow>
          (let this = (if interactor_container this \<noteq> None
                       then (m_call (Interactor_unbindEvents i) this)\<lparr> interactor_container := None \<rparr>
                       else this)
           in case container of
                None \<Rightarrow> this
              | Some c \<Rightarrow> (m_call (Interactor_bindEvents i) this)\<lparr> interactor_container := Some c \<rparr>))"

text \<open>
  The first part of \<open>MultiViewRoot.componentWillUnmount\<close>, the block under
  \<open>if (this.initialized)\<close>. After \<open>unbindEvents\<close> the interactor has no container.
\<close>

definition unmount_initialized :: "MultiViewRoot \<Rightarrow> (js_error \<times> MultiViewRoot) + MultiViewRoot" where
  "unmount_initialized this =
     (if m_initialized this
      then (let this = m_call (ResizeObserver_disconnect (m_resizeObserver this)) this
            in case m_interactor this of
                 None \<Rightarrow> Inl (TypeError, this)
               | Some i \<Rightarrow>
           (let this = (if interactor_container this \<noteq> None
                        then (m_call (Interactor_unbindEvents i) this)\<lparr> interactor_container := None \<rparr>
                        else this)
            in case m_renderWindowView this of
                 None \<Rightarrow> Inl (TypeError, this)
               | Some view \<Rightarrow> Inr (m_call (RenderWindowView_setContainer view None) this)))
      else Inr this)"

text \<open>
  \<open>MultiViewRoot.componentWillUnmount\<close>: the block above, then the view is removed, the
  three objects are deleted and their fields set to \<open>null\<close>. Nothing here touches the timers.
\<close>

definition MultiViewRoot_componentWillUnmount ::
  "MultiViewRoot \<Rightarrow> (js_error \<times> MultiViewRoot) + MultiViewRoot" where
  "MultiViewRoot_componentWillUnmount this =
     (case unmount_initialized this of
        Inl e \<Rightarrow> Inl e
      | Inr this \<Rightarrow>
     (case m_renderWindow this of
        None \<Rightarrow> Inl (TypeError, this)
      | Some rw \<Rightarrow>
     (let this = m_call (RenderWindow_removeView rw (m_renderWindowView this)) this
      in case m_interactor this of
           None \<Rightarrow> Inl (TypeError, this)
         | Some i \<Rightarrow>
     (let this = m_call (Object_delete i) this;
          this = m_call (Object_delete rw) this
      in case m_renderWindowView this of
           None \<Rightarrow> Inl (TypeError, this)
         | Some view \<Rightarrow>
             Inr ((m_call (Object_delete view) this)
                    \<lparr> m_interactor := None, m_renderWindow := None, m_renderWindowView := None \<rparr>)))))"

text \<open>
  The event loop reaching the timers: every pending callback is called, in the order of
  scheduling. The callback \<open>render_of rw\<close> is the render function itself, so calling it
  renders, whatever has happened to the component since.
\<close>

fun run_callback :: "callback \<Rightarrow> MultiViewRoot \<Rightarrow> MultiViewRoot" where
  "run_callback (render_of rw) this = m_call (RenderWindow_render rw) this"

definition fire_timers :: "MultiViewRoot \<Rightarrow> MultiViewRoot" where
  "fire_timers this =
     fold (\<lambda>t. run_callback (snd t)) (pending_timers this) (this\<lparr> pending_timers := [] \<rparr>)"

text \<open>
  The component as its constructor leaves it (render window 1, view 2, interactor 3, resize
  observer 4), in a page whose container measures \<open>box\<close> and whose pixel ratio is \<open>dpr\<close>.
\<close>

definition MultiViewRoot_constructor :: "DOMRect option \<Rightarrow> real option \<Rightarrow> MultiViewRoot" where
  "MultiViewRoot_constructor box dpr =
     \<lparr> m_containerRef = box, m_renderWindow = Some 1, m_interactor = Some 3,
       m_renderWindowView = Some 2, m_resizeObserver = 4, m_initialized = False,
       m_renderViewTimeout = None, window_devicePixelRatio = dpr, interactor_container = None,
       pending_timers = [], next_timer_id = 1, m_calls = [] \<rparr>"

text \<open>
  The fields of a \<open>View\<close> with its five objects alive (render window 1, renderer 2, render
  surface 3, interactor 4, resize observer 5) and mounted in a container measuring \<open>box\<close>.
\<close>

definition View_mounted :: "DOMRect option \<Rightarrow> View" where
  "View_mounted box =
     \<lparr> v_containerRef = box, v_renderWindow = Some 1, v_renderer = Some 2,
       v_openglRenderWindow = Some 3, v_interactor = Some 4, v_resizeObserver = Some 5,
       v_calls = [] \<rparr>"

section \<open>Vocabulary of the statements\<close>

text \<open>The component after a call, whether the call returned or raised.\<close>

definition after :: "(js_error \<times> 's) + 's \<Rightarrow> 's" where
  "after r = (case r of Inl e \<Rightarrow> snd e | Inr s \<Rightarrow> s)"

text \<open>The property that feeds a slot of the dataset.\<close>

fun slot_prop :: "slot \<Rightarrow> PolyData_props \<Rightarrow> jsarray option" where
  "slot_prop Points = points"
| "slot_prop Verts = verts"
| "slot_prop Lines = lines"
| "slot_prop Polys = polys"
| "slot_prop Strips = strips"

text \<open>An attribute is changed when it is present and new or not the array object it was before.\<close>

definition slot_changed :: "slot \<Rightarrow> PolyData_props \<Rightarrow> PolyData_props option \<Rightarrow> bool" where
  "slot_changed s props previous = attr_changed (slot_prop s props) (map_option (slot_prop s) previous)"

text \<open>Some caller-supplied cell array (verts, lines, polys or strips) is changed.\<close>

definition cell_changed :: "PolyData_props \<Rightarrow> PolyData_props option \<Rightarrow> bool" where
  "cell_changed props previous =
     list_ex (\<lambda>s. slot_changed s props previous) [Verts, Lines, Polys, Strips]"

text \<open>The slot and block an implicit connectivity mode writes; nothing for any other mode.\<close>

definition implicit_block :: "string option \<Rightarrow> real \<Rightarrow> (slot \<times> typed_array) option" where
  "implicit_block c nbPoints =
     (if c = Some ''points'' then Some (Verts, Uint32Array (points_values nbPoints))
      else if c = Some ''triangles'' then Some (Polys, Uint32Array (triangles_values nbPoints))
      else if c = Some ''strips'' then Some (Strips, Uint32Array (points_values nbPoints))
      else None)"

definition implicit_mode :: "string option \<Rightarrow> bool" where
  "implicit_mode c = (c = Some ''points'' \<or> c = Some ''triangles'' \<or> c = Some ''strips'')"

text \<open>The write of the points block, if it makes one.\<close>

definition points_write ::
  "PolyData_props \<Rightarrow> PolyData_props option \<Rightarrow> jsarray \<Rightarrow> (slot \<times> typed_array) list" where
  "points_write props previous pts =
     (if slot_changed Points props previous then [(Points, Float64Array (elems pts))] else [])"

text \<open>The writes of an \<open>update\<close> in which no cell array is changed, in the order of the source.\<close>

definition update_writes ::
  "PolyData_props \<Rightarrow> PolyData_props option \<Rightarrow> jsarray \<Rightarrow> (slot \<times> typed_array) list" where
  "update_writes props previous pts =
     points_write props previous pts
     @ (case implicit_block (connectivity props) (real (length (elems pts)) / 3) of
          None \<Rightarrow> [] | Some w \<Rightarrow> [w])"

text \<open>Carrying out a list of writes on the dataset of a component.\<close>

fun do_writes :: "(slot \<times> typed_array) list \<Rightarrow> PolyData \<Rightarrow> PolyData" where
  "do_writes [] this = this"
| "do_writes ((s, a) # ws) this = do_writes ws (setData s a this)"

text \<open>The calls made since an earlier state of the log.\<close>

definition new_calls :: "'c list \<Rightarrow> 'c list \<Rightarrow> 'c list" where
  "new_calls earlier later = drop (length earlier) later"

fun is_dataChanged :: "call \<Rightarrow> bool" where
  "is_dataChanged (Call_dataChanged _) = True"
| "is_dataChanged _ = False"

fun is_setInputData :: "call \<Rightarrow> bool" where
  "is_setInputData (Call_setInputData _ _) = True"
| "is_setInputData _ = False"

text \<open>The element width of an index array, in bits.\<close>

fun index_width :: "typed_array \<Rightarrow> nat option" where
  "index_width (Uint16Array _) = Some 16"
| "index_width (Uint32Array _) = Some 32"
| "index_width (Float64Array _) = None"

text \<open>The first context value that is not \<open>null\<close>, in a sequence of render passes.\<close>

fun first_non_null :: "handle option list \<Rightarrow> handle option" where
  "first_non_null [] = None"
| "first_non_null (None # ds) = first_non_null ds"
| "first_non_null (Some d # ds) = Some d"

text \<open>A \<open>PolyData\<close> as its constructor leaves it: an empty dataset, no context seen, no call made.\<close>

definition PolyData_constructor :: PolyData where
  "PolyData_constructor =
     \<lparr> polydata = (\<lambda>s. case s of Points \<Rightarrow> Float64Array [] | _ \<Rightarrow> Uint32Array []),
       representation = None, downstream = None, calls = [] \<rparr>"

text \<open>
  An example: one triangle with a vertex cell and a polygon cell, in a component that has
  seen the Representation 7 and the Downstream 9 in its render pass.
\<close>

definition triangle_props :: PolyData_props where
  "triangle_props =
     defaultProps\<lparr> points := Some \<lparr> ref = 1, elems = [0, 0, 0, 1, 0, 0, 0, 1, 0] \<rparr>,
                    verts := Some \<lparr> ref = 2, elems = [1, 0] \<rparr>,
                    polys := Some \<lparr> ref = 3, elems = [3, 0, 1, 2] \<rparr> \<rparr>"

definition rendered_node :: PolyData where
  "rendered_node = render (Some 7) (Some 9) PolyData_constructor"

text \<open>
  An example: a root mounted in a container of 300 by 200 at pixel ratio 2, and the same
  root after its \<open>triggerRender\<close> counter went from 0 to 1. The products 300 * 2 and
  200 * 2 are exact in doubles, so the exact product stands for \<open>times_double\<close> here.
\<close>

definition mounted_root :: MultiViewRoot where
  "mounted_root =
     after (MultiViewRoot_componentDidMount (*) \<lparr> triggerRender = 0, disabled = False \<rparr>
       (MultiViewRoot_constructor (Some \<lparr> width = 300, height = 200 \<rparr>) (Some 2)))"

definition root_with_pending_render :: MultiViewRoot where
  "root_with_pending_render =
     after (MultiViewRoot_componentDidUpdate \<lparr> triggerRender = 1, disabled = False \<rparr>
       \<lparr> triggerRender = 0, disabled = False \<rparr> mounted_root)"

section \<open>The update of a PolyData, as a list of writes\<close>

lemma after_Inr [simp]: "after (Inr s) = s"
  by (simp add: after_def)

lemma after_Inl [simp]: "after (Inl (e, s)) = s"
  by (simp add: after_def)

lemma push_attr_unchanged: "\<not> attr_changed x px \<Longrightarrow> push_attr s conv x px st = Inr st"
  by (cases x) (simp_all add: push_attr_def)

lemma push_attr_detached:
  "attr_changed x px \<Longrightarrow> push_attr s (call_detached_from C) x px st = Inl (TypeError, fst st)"
  by (cases x) (simp_all add: push_attr_def call_detached_from_def TypedArray_from_def)

lemma push_attr_points:
  "points props = Some pts \<Longrightarrow>
   push_attr Points Float64Array_from (Some pts) (map_option points previous) (this, False)
     = Inr (do_writes (points_write props previous pts) this, points_write props previous pts \<noteq> [])"
  by (simp add: push_attr_def Float64Array_from_def TypedArray_from_def points_write_def slot_changed_def)

lemma update_connectivity_write:
  "update_connectivity props previous pts st =
     (case implicit_block (connectivity props) (real (length (elems pts)) / 3) of
        None \<Rightarrow> st | Some (s, a) \<Rightarrow> (setData s a (fst st), True))"
  by (simp add: update_connectivity_def implicit_block_def truthy_def Let_def)

lemma do_writes_append: "do_writes (ws @ vs) this = do_writes vs (do_writes ws this)"
  by (induction ws arbitrary: this) auto

lemma cell_changed_iff:
  "cell_changed props previous \<longleftrightarrow> (\<exists>s. s \<noteq> Points \<and> slot_changed s props previous)"
proof
  assume "cell_changed props previous"
  then show "\<exists>s. s \<noteq> Points \<and> slot_changed s props previous"
    by (auto simp: cell_changed_def)
next
  assume "\<exists>s. s \<noteq> Points \<and> slot_changed s props previous"
  then obtain s where "s \<noteq> Points" "slot_changed s props previous" by blast
  then show "cell_changed props previous"
    by (cases s) (simp_all add: cell_changed_def)
qed

lemma update_eq:
  assumes "points props = Some pts" and "\<not> cell_changed props previous"
  shows "update props previous this =
     Inr (notify (do_writes (update_writes props previous pts) this, update_writes props previous pts \<noteq> []))"
proof -
  have u: "\<not> attr_changed (verts props) (map_option verts previous)"
    "\<not> attr_changed (lines props) (map_option lines previous)"
    "\<not> attr_changed (polys props) (map_option polys previous)"
    "\<not> attr_changed (strips props) (map_option strips previous)"
    using assms(2) by (simp_all add: cell_changed_def slot_changed_def)
  show ?thesis
    unfolding update_def update_writes_def
    by (simp add: assms(1) push_attr_points [OF assms(1)] push_attr_unchanged u and_then_def
        update_connectivity_write do_writes_append split: option.splits)
qed

lemma update_raises_eq:
  assumes "points props = Some pts" and "cell_changed props previous"
  shows "update props previous this = Inl (TypeError, do_writes (points_write props previous pts) this)"
proof -
  have "attr_changed (verts props) (map_option verts previous)
      \<or> attr_changed (lines props) (map_option lines previous)
      \<or> attr_changed (polys props) (map_option polys previous)
      \<or> attr_changed (strips props) (map_option strips previous)"
    using assms(2) by (simp add: cell_changed_def slot_changed_def)
  then show ?thesis
    unfolding update_def
    by (cases "attr_changed (verts props) (map_option verts previous)";
        cases "attr_changed (lines props) (map_option lines previous)";
        cases "attr_changed (polys props) (map_option polys previous)")
       (simp_all add: assms(1) push_attr_points [OF assms(1)] push_attr_unchanged push_attr_detached
          and_then_def)
qed

lemma update_null_points: "points props = None \<Longrightarrow> update props previous this = Inl (TypeError, this)"
  by (simp add: update_def)

lemma update_returns:
  "points props = Some pts \<Longrightarrow> \<not> cell_changed props previous \<Longrightarrow>
   update props previous this = Inr (after (update props previous this))"
  by (simp add: update_eq)

lemma calls_do_writes:
  "calls (do_writes ws this) = calls this @ map (\<lambda>(s, a). Call_setData s a) ws"
  by (induction ws arbitrary: this) (auto simp: setData_def)

lemma representation_do_writes: "representation (do_writes ws this) = representation this"
  by (induction ws arbitrary: this) (auto simp: setData_def)

lemma downstream_do_writes: "downstream (do_writes ws this) = downstream this"
  by (induction ws arbitrary: this) (auto simp: setData_def)

lemma polydata_do_writes:
  "polydata (do_writes ws this) s =
     (case map_of (rev ws) s of None \<Rightarrow> polydata this s | Some a \<Rightarrow> a)"
  by (induction ws arbitrary: this) (auto simp: setData_def map_add_def split: option.splits)

lemma calls_notify:
  "calls (notify (this, b)) =
     calls this @ (if b then Call_modified # (case representation this of None \<Rightarrow> [] | Some r \<Rightarrow> [Call_dataChanged r])
                   else [])"
  by (simp add: notify_def Let_def split: option.splits)

lemma polydata_notify: "polydata (notify st) = polydata (fst st)"
  by (simp add: notify_def Let_def split: option.splits)

lemma downstream_notify: "downstream (notify st) = downstream (fst st)"
  by (simp add: notify_def Let_def split: option.splits)

lemma representation_notify: "representation (notify st) = representation (fst st)"
  by (simp add: notify_def Let_def split: option.splits)

lemma notify_False: "notify (this, False) = this"
  by (simp add: notify_def)

text \<open>The log and the dataset after an update that returns.\<close>

lemma new_calls_update:
  assumes "points props = Some pts" and "\<not> cell_changed props previous"
  shows "new_calls (calls this) (calls (after (update props previous this))) =
     map (\<lambda>(s, a). Call_setData s a) (update_writes props previous pts)
     @ (if update_writes props previous pts \<noteq> []
        then Call_modified # (case representation this of None \<Rightarrow> [] | Some r \<Rightarrow> [Call_dataChanged r])
        else [])"
  by (simp add: update_eq [OF assms] calls_notify calls_do_writes representation_do_writes new_calls_def)

lemma polydata_update:
  assumes "points props = Some pts" and "\<not> cell_changed props previous"
  shows "polydata (after (update props previous this)) s =
     (case map_of (rev (update_writes props previous pts)) s of None \<Rightarrow> polydata this s | Some a \<Rightarrow> a)"
  by (simp add: update_eq [OF assms] polydata_notify polydata_do_writes)

text \<open>The log and the dataset after an update that raises on a cell array.\<close>

lemma new_calls_update_raises:
  assumes "points props = Some pts" and "cell_changed props previous"
  shows "new_calls (calls this) (calls (after (update props previous this))) =
     map (\<lambda>(s, a). Call_setData s a) (points_write props previous pts)"
  by (simp add: update_raises_eq [OF assms] calls_do_writes new_calls_def)

lemma polydata_update_raises:
  assumes "points props = Some pts" and "cell_changed props previous"
  shows "polydata (after (update props previous this)) s =
     (case map_of (rev (points_write props previous pts)) s of None \<Rightarrow> polydata this s | Some a \<Rightarrow> a)"
  by (simp add: update_raises_eq [OF assms] polydata_do_writes)

lemma implicit_block_None_iff: "implicit_block c nb = None \<longleftrightarrow> \<not> implicit_mode c"
  by (simp add: implicit_block_def implicit_mode_def)

lemma update_writes_iff:
  "(s, a) \<in> set (update_writes props previous pts) \<longleftrightarrow>
     (s = Points \<and> slot_changed Points props previous \<and> a = Float64Array (elems pts))
     \<or> implicit_block (connectivity props) (real (length (elems pts)) / 3) = Some (s, a)"
  by (auto simp: update_writes_def points_write_def split: option.splits)

lemma implicit_block_not_Points: "implicit_block c nb \<noteq> Some (Points, a)"
  by (simp add: implicit_block_def)

lemma map_of_update_writes:
  "map_of (rev (update_writes props previous pts)) s =
     (case implicit_block (connectivity props) (real (length (elems pts)) / 3) of
        None \<Rightarrow> map_of (points_write props previous pts) s
      | Some (s', b) \<Rightarrow> if s' = s then Some b else map_of (points_write props previous pts) s)"
  by (simp add: update_writes_def points_write_def map_add_def split: option.splits)

lemma update_writes_Nil_iff:
  "update_writes props previous pts = [] \<longleftrightarrow>
     \<not> slot_changed Points props previous \<and> \<not> implicit_mode (connectivity props)"
  using implicit_block_None_iff [of "connectivity props" "real (length (elems pts)) / 3"]
  by (cases "implicit_block (connectivity props) (real (length (elems pts)) / 3)")
     (simp_all add: update_writes_def points_write_def)

section \<open>PolyData: the context references\<close>

lemma render_passes_downstream:
  "downstream (render_passes ctxs this) =
     (case downstream this of Some d \<Rightarrow> Some d | None \<Rightarrow> first_non_null (map snd ctxs))"
proof (induction ctxs arbitrary: this)
  case Nil
  then show ?case by (simp split: option.splits)
next
  case (Cons c ctxs)
  obtain r d where c: "c = (r, d)" by (cases c)
  show ?case
    by (cases d; cases "downstream this") (simp_all add: c Cons.IH render_def)
qed

lemma render_passes_representation:
  "representation (render_passes ctxs this) =
     (if ctxs = [] then representation this else fst (last ctxs))"
proof (induction ctxs arbitrary: this)
  case Nil
  then show ?case by simp
next
  case (Cons c ctxs)
  obtain r d where c: "c = (r, d)" by (cases c)
  show ?case by (simp add: c Cons.IH render_def Let_def)
qed

text \<open>
  C9. Over any sequence of render passes, the Downstream reference of a PolyData is the one
  it already held, or else the first Downstream context value that was not \<open>null\<close>: once
  set it is never replaced, whatever the context becomes. The Representation reference is
  the context value of the last pass: it is overwritten on every pass.
\<close>

theorem C9_downstream_latched:
  "downstream (render_passes ctxs this) =
     (case downstream this of Some d \<Rightarrow> Some d | None \<Rightarrow> first_non_null (map snd ctxs))
   \<and> representation (render_passes ctxs this) =
     (if ctxs = [] then representation this else fst (last ctxs))"
  by (simp only: render_passes_downstream render_passes_representation)

theorem C9_downstream_latched_witness:
  "downstream (render_passes [(Some 7, None), (Some 7, Some 5), (Some 8, Some 6)] PolyData_constructor) = Some 5
   \<and> representation (render_passes [(Some 7, None), (Some 7, Some 5), (Some 8, Some 6)] PolyData_constructor) = Some 8"
  using C9_downstream_latched [of "[(Some 7, None), (Some 7, Some 5), (Some 8, Some 6)]" PolyData_constructor]
  by (simp add: PolyData_constructor_def)

section \<open>PolyData: the block of the mode triangles\<close>

lemma ToUint32_real: "ToUint32 (real n) = n mod 2 ^ 32"
  by (simp add: ToUint32_def js_trunc_def nat_mod_distrib)

lemma take4: "a + 3 < length vs \<Longrightarrow>
  take (a + 4) (vs[a := x0, a + 1 := x1, a + 2 := x2, a + 3 := x3]) = take a vs @ [x0, x1, x2, x3]"
  by (simp add: list_eq_iff_nth_eq nth_append nth_list_update min_def)

lemma tri_step:
  assumes "4 * k + 3 < length vs" "3 * k + 2 < 2 ^ 32"
  shows "u32_store (u32_store (u32_store (u32_store vs (4 * k) 3)
                (4 * k + 1) (real (3 * k) + 0)) (4 * k + 2) (real (3 * k) + 1)) (4 * k + 3) (real (3 * k) + 2)
       = vs[4 * k := 3, 4 * k + 1 := 3 * k, 4 * k + 2 := 3 * k + 1, 4 * k + 3 := 3 * k + 2]"
proof -
  have a: "real (3 * k) + 1 = real (3 * k + 1)" "real (3 * k) + 2 = real (3 * k + 2)" "(3::real) = real 3"
    by simp_all
  show ?thesis using assms unfolding u32_store_def a add_0_right ToUint32_real
    by simp
qed

lemma triangles_loop_eq:
  "k \<le> m \<Longrightarrow> length vs = 4 * m \<Longrightarrow> 3 * m < 2 ^ 32 \<Longrightarrow>
   triangles_loop (real (3 * m)) (3 * k) (4 * k) vs
     = take (4 * k) vs @ concat (map (\<lambda>i. [3, i, i + 1, i + 2]) (map ((*) 3) [k..<m]))"
proof (induction "m - k" arbitrary: k vs)
  case 0
  then show ?case by (simp add: triangles_loop.simps)
next
  case (Suc d)
  then have km: "k < m" by simp
  let ?vs = "vs[4 * k := 3, 4 * k + 1 := 3 * k, 4 * k + 2 := 3 * k + 1, 4 * k + 3 := 3 * k + 2]"
  have step: "triangles_loop (real (3 * m)) (3 * k) (4 * k) vs
      = triangles_loop (real (3 * m)) (3 * (k + 1)) (4 * (k + 1)) ?vs"
    using km Suc.prems tri_step [of k vs]
    by (subst triangles_loop.simps) (simp add: algebra_simps)
  have "triangles_loop (real (3 * m)) (3 * (k + 1)) (4 * (k + 1)) ?vs
      = take (4 * (k + 1)) ?vs @ concat (map (\<lambda>i. [3, i, i + 1, i + 2]) (map ((*) 3) [k + 1..<m]))"
    using Suc.hyps(2) km Suc.prems by (intro Suc.hyps(1)) simp_all
  moreover have "take (4 * (k + 1)) ?vs = take (4 * k) vs @ [3, 3 * k, 3 * k + 1, 3 * k + 2]"
    using take4 [of "4 * k" vs] km Suc.prems by (simp add: algebra_simps)
  moreover have "[k..<m] = k # [k + 1..<m]"
    using km by (simp add: upt_conv_Cons)
  ultimately show ?case using step by simp
qed

lemma triangles_values_eq:
  assumes "3 * m < 2 ^ 32"
  shows "triangles_values (real (9 * m) / 3) = concat (map (\<lambda>i. [3, i, i + 1, i + 2]) (map ((*) 3) [0..<m]))"
proof -
  have nb: "real (9 * m) / 3 = real (3 * m)" by simp
  have len: "new_Uint32Array (real (3 * m) + real (3 * m) / 3) = replicate (4 * m) 0"
  proof -
    have e: "real (3 * m) + real (3 * m) / 3 = real (4 * m)" by simp
    show ?thesis
      by (simp only: e new_Uint32Array_def js_trunc_def floor_of_nat nat_int of_nat_less_0_iff if_False)
  qed
  show ?thesis
    unfolding triangles_values_def nb len
    using triangles_loop_eq [of 0 m "replicate (4 * m) 0"] assms by simp
qed

lemma setData_in_new_calls:
  assumes "points props = Some pts" and "\<not> cell_changed props previous"
  shows "Call_setData s a \<in> set (new_calls (calls this) (calls (after (update props previous this))))
           \<longleftrightarrow> (s, a) \<in> set (update_writes props previous pts)"
proof -
  have "Call_setData s a \<in> set (map (\<lambda>(s, a). Call_setData s a) ws) \<longleftrightarrow> (s, a) \<in> set ws" for ws
    by (induction ws) auto
  then show ?thesis
    unfolding new_calls_update [OF assms] by (auto split: option.splits)
qed

lemma setData_in_new_calls_raises:
  assumes "points props = Some pts" and "cell_changed props previous"
  shows "Call_setData s a \<in> set (new_calls (calls this) (calls (after (update props previous this))))
           \<longleftrightarrow> (s, a) \<in> set (points_write props previous pts)"
proof -
  have "Call_setData s a \<in> set (map (\<lambda>(s, a). Call_setData s a) ws) \<longleftrightarrow> (s, a) \<in> set ws" for ws
    by (induction ws) auto
  then show ?thesis
    unfolding new_calls_update_raises [OF assms] by simp
qed

text \<open>
  C6. In the mode \<open>triangles\<close>, with a points array of \<open>3 * n\<close> numbers where 3 divides
  \<open>n\<close> (and of a length a JavaScript array can have, below \<open>2 ^ 32\<close>), an \<open>update\<close> that
  pushes no caller-supplied cell array returns, and the polygon block it generates and
  writes to the dataset is the concatenation of \<open>[3, i, i + 1, i + 2]\<close> for
  \<open>i = 0, 3, 6, ..., n - 3\<close>.
\<close>

theorem C6_triangles_block:
  assumes "connectivity props = Some ''triangles''"
    and "points props = Some pts"
    and "length (elems pts) = 3 * n"
    and "3 dvd n"
    and "length (elems pts) < 2 ^ 32"
    and "\<not> cell_changed props previous"
  shows "update props previous this = Inr (after (update props previous this))
         \<and> polydata (after (update props previous this)) Polys
             = Uint32Array (concat (map (\<lambda>i. [3, i, i + 1, i + 2]) (map ((*) 3) [0..<n div 3])))
         \<and> Call_setData Polys (Uint32Array (concat (map (\<lambda>i. [3, i, i + 1, i + 2]) (map ((*) 3) [0..<n div 3]))))
             \<in> set (new_calls (calls this) (calls (after (update props previous this))))"
proof -
  let ?block = "Uint32Array (concat (map (\<lambda>i. [3, i, i + 1, i + 2]) (map ((*) 3) [0..<n div 3])))"
  obtain m where m: "n = 3 * m" using assms(4) by (elim dvdE)
  have "3 * m < 2 ^ 32" using assms(3,5) m by simp
  then have "triangles_values (real (length (elems pts)) / 3)
      = concat (map (\<lambda>i. [3, i, i + 1, i + 2]) (map ((*) 3) [0..<m]))"
    using triangles_values_eq [of m] assms(3) m by simp
  then have ib: "implicit_block (connectivity props) (real (length (elems pts)) / 3) = Some (Polys, ?block)"
    using assms(1) m by (simp add: implicit_block_def)
  have r: "update props previous this = Inr (after (update props previous this))"
    using assms(2,6) by (rule update_returns)
  have "polydata (after (update props previous this)) Polys = ?block"
    unfolding polydata_update [OF assms(2,6)] map_of_update_writes ib by simp
  moreover have "(Polys, ?block) \<in> set (update_writes props previous pts)"
    unfolding update_writes_iff ib by simp
  then have "Call_setData Polys ?block \<in> set (new_calls (calls this) (calls (after (update props previous this))))"
    unfolding setData_in_new_calls [OF assms(2,6)] .
  ultimately show ?thesis using r by simp
qed

theorem C6_triangles_block_witness:
  "polydata (after (update
      (defaultProps\<lparr> points := Some \<lparr> ref = 1, elems = [0, 0, 0, 1, 0, 0, 0, 1, 0, 0, 0, 1, 1, 0, 1, 0, 1, 1] \<rparr>,
                      connectivity := Some ''triangles'' \<rparr>) None PolyData_constructor)) Polys
     = Uint32Array [3, 0, 1, 2, 3, 3, 4, 5]"
  using C6_triangles_block [of
      "defaultProps\<lparr> points := Some \<lparr> ref = 1, elems = [0, 0, 0, 1, 0, 0, 0, 1, 0, 0, 0, 1, 1, 0, 1, 0, 1, 1] \<rparr>,
                      connectivity := Some ''triangles'' \<rparr>"
      "\<lparr> ref = 1, elems = [0, 0, 0, 1, 0, 0, 0, 1, 0, 0, 0, 1, 1, 0, 1, 0, 1, 1] \<rparr>" 6 None PolyData_constructor]
  by (simp add: defaultProps_def upt_rec cell_changed_def slot_changed_def)

section \<open>PolyData: index width of the synthesized blocks\<close>

text \<open>
  C10. Whatever the length of the points array, the block that an implicit connectivity
  mode writes (vertices for \<open>points\<close>, polygons for \<open>triangles\<close>, strips for \<open>strips\<close>), in an
  \<open>update\<close> that pushes no caller-supplied cell array, is a \<open>Uint32Array\<close>: the threshold of
  196608 numbers, which picks \<open>cellFrom\<close>, plays no part in it.
\<close>

theorem C10_implicit_wide:
  assumes "points props = Some pts" and "\<not> cell_changed props previous"
  shows "update props previous this = Inr (after (update props previous this))
       \<and> (connectivity props = Some ''points'' \<longrightarrow>
            polydata (after (update props previous this)) Verts
              = Uint32Array (points_values (real (length (elems pts)) / 3))
            \<and> index_width (polydata (after (update props previous this)) Verts) = Some 32)
       \<and> (connectivity props = Some ''triangles'' \<longrightarrow>
            polydata (after (update props previous this)) Polys
              = Uint32Array (triangles_values (real (length (elems pts)) / 3))
            \<and> index_width (polydata (after (update props previous this)) Polys) = Some 32)
       \<and> (connectivity props = Some ''strips'' \<longrightarrow>
            polydata (after (update props previous this)) Strips
              = Uint32Array (points_values (real (length (elems pts)) / 3))
            \<and> index_width (polydata (after (update props previous this)) Strips) = Some 32)"
  unfolding polydata_update [OF assms] map_of_update_writes
  using update_returns [OF assms, of this]
  by (simp add: implicit_block_def)

lemma points_values_triangle: "points_values 3 = [3, 0, 1, 2]"
  by (simp add: points_values_def points_loop.simps new_Uint32Array_def u32_store_def js_trunc_def
        ToUint32_def eval_nat_numeral)

theorem C10_implicit_wide_witness:
  "polydata (after (update
      (defaultProps\<lparr> points := Some \<lparr> ref = 1, elems = [0, 0, 0, 1, 0, 0, 0, 1, 0] \<rparr>,
                      connectivity := Some ''points'' \<rparr>) None PolyData_constructor)) Verts
     = Uint32Array [3, 0, 1, 2]
   \<and> index_width (polydata (after (update
      (defaultProps\<lparr> points := Some \<lparr> ref = 1, elems = [0, 0, 0, 1, 0, 0, 0, 1, 0] \<rparr>,
                      connectivity := Some ''points'' \<rparr>) None PolyData_constructor)) Verts) = Some 32
   \<and> cellFrom \<lparr> ref = 1, elems = [0, 0, 0, 1, 0, 0, 0, 1, 0] \<rparr> = Uint16Array_constructor"
  using C10_implicit_wide [of
      "defaultProps\<lparr> points := Some \<lparr> ref = 1, elems = [0, 0, 0, 1, 0, 0, 0, 1, 0] \<rparr>,
                      connectivity := Some ''points'' \<rparr>"
      "\<lparr> ref = 1, elems = [0, 0, 0, 1, 0, 0, 0, 1, 0] \<rparr>" None PolyData_constructor]
  by (simp add: defaultProps_def cell_changed_def slot_changed_def cellFrom_def points_values_triangle)

section \<open>PolyData: mounting without a Downstream\<close>

lemma update_keeps_downstream:
  "downstream (after (update props previous this)) = downstream this"
proof (cases "points props")
  case None
  then show ?thesis by (simp add: update_def)
next
  case (Some pts)
  then show ?thesis
    by (cases "cell_changed props previous")
       (simp_all add: update_eq update_raises_eq downstream_notify downstream_do_writes)
qed

lemma update_no_setInputData:
  "filter is_setInputData (calls (after (update props previous this))) = filter is_setInputData (calls this)"
proof (cases "points props")
  case None
  then show ?thesis by (simp add: update_def)
next
  case (Some pts)
  have "filter is_setInputData (map (\<lambda>(s, a). Call_setData s a) ws) = []" for ws
    by (induction ws) auto
  then show ?thesis
    using Some
    by (cases "cell_changed props previous")
       (simp_all add: update_eq update_raises_eq calls_notify calls_do_writes split: option.splits)
qed

text \<open>
  C8. When the Downstream reference of a PolyData is \<open>null\<close> at mount time,
  \<open>componentDidMount\<close> raises a \<open>TypeError\<close> to its caller, and no \<open>setInputData\<close> call has been
  made: the dataset is not registered as the input of anything.
\<close>

theorem C8_mount_without_downstream:
  assumes "downstream this = None"
  shows "componentDidMount props this = Inl (TypeError, after (componentDidMount props this))
       \<and> filter is_setInputData (calls (after (componentDidMount props this)))
           = filter is_setInputData (calls this)"
proof (cases "update props None this")
  case (Inl e)
  then show ?thesis
    using update_no_setInputData [of props None this]
    by (cases e; cases "fst e") (simp add: componentDidMount_def)
next
  case (Inr s)
  then have "downstream s = None" "filter is_setInputData (calls s) = filter is_setInputData (calls this)"
    using update_keeps_downstream [of props None this] update_no_setInputData [of props None this] assms
    by simp_all
  then show ?thesis
    using Inr by (simp add: componentDidMount_def)
qed

theorem C8_mount_without_downstream_witness:
  "componentDidMount
      (defaultProps\<lparr> points := Some \<lparr> ref = 1, elems = [0, 0, 0, 1, 0, 0, 0, 1, 0] \<rparr> \<rparr>)
      (render (Some 7) None PolyData_constructor)
     = Inl (TypeError, after (componentDidMount
      (defaultProps\<lparr> points := Some \<lparr> ref = 1, elems = [0, 0, 0, 1, 0, 0, 0, 1, 0] \<rparr> \<rparr>)
      (render (Some 7) None PolyData_constructor)))
   \<and> filter is_setInputData (calls (after (componentDidMount
      (defaultProps\<lparr> points := Some \<lparr> ref = 1, elems = [0, 0, 0, 1, 0, 0, 0, 1, 0] \<rparr> \<rparr>)
      (render (Some 7) None PolyData_constructor)))) = []"
  using C8_mount_without_downstream [of "render (Some 7) None PolyData_constructor"
      "defaultProps\<lparr> points := Some \<lparr> ref = 1, elems = [0, 0, 0, 1, 0, 0, 0, 1, 0] \<rparr> \<rparr>"]
  by (simp add: render_def PolyData_constructor_def)

text \<open>
  With a Downstream, a mount that pushes no cell array returns, and its last call registers
  the dataset.
\<close>

lemma mount_with_downstream:
  assumes "downstream this = Some d" and "points props = Some pts" and "\<not> cell_changed props None"
  shows "\<exists>this'. componentDidMount props this = Inr this'
           \<and> calls this' = calls (after (update props None this)) @ [Call_setInputData d (port props)]"
proof -
  define s where "s = after (update props None this)"
  have u: "update props None this = Inr s"
    unfolding s_def using assms(2,3) by (rule update_returns)
  have "downstream s = Some d"
    unfolding s_def using assms(1) by (simp add: update_keeps_downstream)
  then show ?thesis
    by (simp add: componentDidMount_def u)
qed

section \<open>PolyData: pushing a caller-supplied cell array\<close>

text \<open>
  An update that reaches a changed cell array raises at \<open>cellFrom(x)\<close>: by then it has
  written the points, if they changed, and nothing else; it calls neither \<open>modified()\<close>
  nor \<open>dataChanged()\<close>.
\<close>

lemma changed_cell_array_raises:
  assumes "points props = Some pts" and "s \<noteq> Points" and "slot_changed s props previous"
  shows "update props previous this = Inl (TypeError, after (update props previous this))
       \<and> new_calls (calls this) (calls (after (update props previous this)))
           = map (\<lambda>(s, a). Call_setData s a) (points_write props previous pts)"
proof -
  have c: "cell_changed props previous"
    using assms(2,3) by (auto simp: cell_changed_iff)
  show ?thesis
    using new_calls_update_raises [OF assms(1) c, of this]
    by (simp add: update_raises_eq [OF assms(1) c])
qed

lemma triangle_props_points:
  "points triangle_props = Some \<lparr> ref = 1, elems = [0, 0, 0, 1, 0, 0, 0, 1, 0] \<rparr>"
  by (simp add: triangle_props_def defaultProps_def)

lemma rendered_node_representation: "representation rendered_node = Some 7"
  by (simp add: rendered_node_def render_def PolyData_constructor_def)

text \<open>
  C5 fails on the code. Mounting the triangle, whose 9 point numbers select the \<open>from\<close> of
  \<open>Uint16Array\<close>, raises a \<open>TypeError\<close> at \<open>cellFrom(verts)\<close>: the points are the only array
  written, and the vertex slot keeps what it held. No caller-supplied cell array is stored,
  in either width.
\<close>

theorem C5_cell_array_not_stored:
  "cellFrom \<lparr> ref = 1, elems = [0, 0, 0, 1, 0, 0, 0, 1, 0] \<rparr> = Uint16Array_constructor
   \<and> componentDidMount triangle_props rendered_node
       = Inl (TypeError, after (componentDidMount triangle_props rendered_node))
   \<and> new_calls (calls rendered_node) (calls (after (componentDidMount triangle_props rendered_node)))
       = [Call_setData Points (Float64Array [0, 0, 0, 1, 0, 0, 0, 1, 0])]
   \<and> polydata (after (componentDidMount triangle_props rendered_node)) Verts
       = polydata rendered_node Verts"
proof -
  have v: "slot_changed Verts triangle_props None"
    by (simp add: slot_changed_def triangle_props_def defaultProps_def)
  have p: "points_write triangle_props None \<lparr> ref = 1, elems = [0, 0, 0, 1, 0, 0, 0, 1, 0] \<rparr>
      = [(Points, Float64Array [0, 0, 0, 1, 0, 0, 0, 1, 0])]"
    by (simp add: points_write_def slot_changed_def triangle_props_def defaultProps_def)
  have c: "cell_changed triangle_props None"
    using v by (auto simp: cell_changed_iff)
  have u: "update triangle_props None rendered_node
      = Inl (TypeError, do_writes [(Points, Float64Array [0, 0, 0, 1, 0, 0, 0, 1, 0])] rendered_node)"
    using update_raises_eq [OF triangle_props_points c, of rendered_node] unfolding p .
  show ?thesis
    by (simp add: componentDidMount_def u cellFrom_def new_calls_def setData_def)
qed

section \<open>PolyData: what an update writes and notifies\<close>

lemma modified_in_new_calls:
  assumes "points props = Some pts" and "\<not> cell_changed props previous"
  shows "count_list (new_calls (calls this) (calls (after (update props previous this)))) Call_modified
           = (if update_writes props previous pts = [] then 0 else 1)"
proof -
  have "count_list (map (\<lambda>(s, a). Call_setData s a) ws) Call_modified = 0" for ws
    by (induction ws) auto
  then show ?thesis
    unfolding new_calls_update [OF assms] by (auto split: option.splits)
qed

lemma dataChanged_in_new_calls:
  assumes "points props = Some pts" and "\<not> cell_changed props previous"
  shows "filter is_dataChanged (new_calls (calls this) (calls (after (update props previous this))))
           = (if update_writes props previous pts = [] then []
              else case representation this of None \<Rightarrow> [] | Some r \<Rightarrow> [Call_dataChanged r])"
proof -
  have "filter is_dataChanged (map (\<lambda>(s, a). Call_setData s a) ws) = []" for ws
    by (induction ws) auto
  then show ?thesis
    unfolding new_calls_update [OF assms] by (auto split: option.splits)
qed

lemma points_write_iff:
  "(s, a) \<in> set (points_write props previous pts) \<longleftrightarrow>
     s = Points \<and> slot_changed Points props previous \<and> a = Float64Array (elems pts)"
  by (auto simp: points_write_def)

lemma write_of_unchanged_slot:
  assumes "points props = Some pts" and "\<not> slot_changed s props previous"
    and "Call_setData s a \<in> set (new_calls (calls this) (calls (after (update props previous this))))"
  shows "implicit_block (connectivity props) (real (length (elems pts)) / 3) = Some (s, a)"
proof (cases "cell_changed props previous")
  case True
  then show ?thesis
    using assms(2,3) unfolding setData_in_new_calls_raises [OF assms(1) True] points_write_iff by simp
next
  case False
  then show ?thesis
    using assms(2,3) unfolding setData_in_new_calls [OF assms(1) False] update_writes_iff by auto
qed

lemma changed_points_written:
  assumes "points props = Some pts" and "slot_changed Points props previous"
  shows "Call_setData Points (Float64Array (elems pts))
           \<in> set (new_calls (calls this) (calls (after (update props previous this))))"
proof (cases "cell_changed props previous")
  case True
  then show ?thesis
    using assms(2) unfolding setData_in_new_calls_raises [OF assms(1) True] points_write_iff by simp
next
  case False
  then show ?thesis
    using assms(2) unfolding setData_in_new_calls [OF assms(1) False] update_writes_iff by simp
qed

lemma unchanged_slot_kept:
  assumes "points props = Some pts" and "\<not> slot_changed s props previous"
    and "\<forall>b. implicit_block (connectivity props) (real (length (elems pts)) / 3) \<noteq> Some (s, b)"
  shows "polydata (after (update props previous this)) s = polydata this s"
proof -
  have pw: "map_of (points_write props previous pts) s = None"
    using assms(2) by (auto simp: points_write_def)
  show ?thesis
  proof (cases "cell_changed props previous")
    case True
    then show ?thesis
      unfolding polydata_update_raises [OF assms(1) True] using pw
      by (simp add: points_write_def split: if_splits)
  next
    case False
    then show ?thesis
      unfolding polydata_update [OF assms(1) False] map_of_update_writes
      using pw assms(3) by (auto split: option.splits)
  qed
qed

text \<open>
  C2, as the code has it. In an \<open>update\<close> whose \<open>points\<close> is not \<open>null\<close>, whether it returns or
  raises: an array attribute that is absent, or the array object it was in the previous
  properties, is not pushed (the only write its slot can get is the block of an implicit
  connectivity mode) and, where the implicit mode does not write it, its slot keeps its
  content; points that are present and changed are pushed. When no array attribute
  changed and the mode is not implicit, the update returns and leaves the component as it
  was: no write, no \<open>modified()\<close>, no \<open>dataChanged()\<close>. The connectivity is not diffed: in an
  implicit mode, an update that pushes no cell array returns with the block written and
  \<open>modified()\<close> called once, on every update, whether or not anything changed.
\<close>

theorem C2_update_diff:
  assumes "points props = Some pts"
  shows "(\<forall>s a. \<not> slot_changed s props previous \<longrightarrow>
            Call_setData s a \<in> set (new_calls (calls this) (calls (after (update props previous this)))) \<longrightarrow>
            implicit_block (connectivity props) (real (length (elems pts)) / 3) = Some (s, a))
       \<and> (\<forall>s. \<not> slot_changed s props previous \<longrightarrow>
              (\<forall>b. implicit_block (connectivity props) (real (length (elems pts)) / 3) \<noteq> Some (s, b)) \<longrightarrow>
              polydata (after (update props previous this)) s = polydata this s)
       \<and> (slot_changed Points props previous \<longrightarrow>
              Call_setData Points (Float64Array (elems pts))
                \<in> set (new_calls (calls this) (calls (after (update props previous this)))))
       \<and> ((\<forall>s. \<not> slot_changed s props previous) \<and> \<not> implicit_mode (connectivity props)
             \<longrightarrow> update props previous this = Inr this)
       \<and> (implicit_mode (connectivity props) \<and> \<not> cell_changed props previous \<longrightarrow>
             update props previous this = Inr (after (update props previous this))
             \<and> (\<exists>s b. implicit_block (connectivity props) (real (length (elems pts)) / 3) = Some (s, b)
                    \<and> polydata (after (update props previous this)) s = b
                    \<and> Call_setData s b
                        \<in> set (new_calls (calls this) (calls (after (update props previous this)))))
             \<and> count_list (new_calls (calls this) (calls (after (update props previous this))))
                  Call_modified = 1)"
proof (intro conjI allI impI)
  fix s a
  assume "\<not> slot_changed s props previous"
    and "Call_setData s a \<in> set (new_calls (calls this) (calls (after (update props previous this))))"
  then show "implicit_block (connectivity props) (real (length (elems pts)) / 3) = Some (s, a)"
    using assms by (intro write_of_unchanged_slot)
next
  fix s
  assume "\<not> slot_changed s props previous"
    and "\<forall>b. implicit_block (connectivity props) (real (length (elems pts)) / 3) \<noteq> Some (s, b)"
  then show "polydata (after (update props previous this)) s = polydata this s"
    using assms by (intro unchanged_slot_kept)
next
  assume "slot_changed Points props previous"
  then show "Call_setData Points (Float64Array (elems pts))
      \<in> set (new_calls (calls this) (calls (after (update props previous this))))"
    using assms by (intro changed_points_written)
next
  assume a: "(\<forall>s. \<not> slot_changed s props previous) \<and> \<not> implicit_mode (connectivity props)"
  then have c: "\<not> cell_changed props previous"
    by (simp add: cell_changed_iff)
  have "update_writes props previous pts = []"
    using a by (simp add: update_writes_Nil_iff)
  then show "update props previous this = Inr this"
    by (simp add: update_eq [OF assms c] notify_False)
next
  assume "implicit_mode (connectivity props) \<and> \<not> cell_changed props previous"
  then show "update props previous this = Inr (after (update props previous this))"
    using assms by (intro update_returns) simp_all
next
  assume a: "implicit_mode (connectivity props) \<and> \<not> cell_changed props previous"
  then have c: "\<not> cell_changed props previous" by simp
  obtain s b where sb: "implicit_block (connectivity props) (real (length (elems pts)) / 3) = Some (s, b)"
    using a implicit_block_None_iff [of "connectivity props" "real (length (elems pts)) / 3"]
    by (cases "implicit_block (connectivity props) (real (length (elems pts)) / 3)") auto
  have "polydata (after (update props previous this)) s = b"
    unfolding polydata_update [OF assms c] map_of_update_writes sb by simp
  moreover have "Call_setData s b \<in> set (new_calls (calls this) (calls (after (update props previous this))))"
    unfolding setData_in_new_calls [OF assms c] update_writes_iff sb by simp
  ultimately show "\<exists>s b. implicit_block (connectivity props) (real (length (elems pts)) / 3) = Some (s, b)
      \<and> polydata (after (update props previous this)) s = b
      \<and> Call_setData s b \<in> set (new_calls (calls this) (calls (after (update props previous this))))"
    using sb by blast
next
  assume a: "implicit_mode (connectivity props) \<and> \<not> cell_changed props previous"
  then have c: "\<not> cell_changed props previous" by simp
  have "update_writes props previous pts \<noteq> []"
    using a by (simp add: update_writes_Nil_iff)
  then show "count_list (new_calls (calls this) (calls (after (update props previous this)))) Call_modified = 1"
    unfolding modified_in_new_calls [OF assms c] by simp
qed

lemma triangle_props_unchanged: "\<not> slot_changed s triangle_props (Some triangle_props)"
  by (cases s) (simp_all add: slot_changed_def triangle_props_def defaultProps_def)

text \<open>
  C2 as stated fails in the implicit modes: an update with the very same properties as
  before (no attribute changed) in the mode \<open>points\<close> writes the vertex block again and
  calls \<open>modified()\<close> and \<open>dataChanged()\<close>.
\<close>

theorem C2_no_change_still_writes:
  "\<not> slot_changed Points (triangle_props\<lparr> connectivity := Some ''points'' \<rparr>)
       (Some (triangle_props\<lparr> connectivity := Some ''points'' \<rparr>))
   \<and> \<not> slot_changed Verts (triangle_props\<lparr> connectivity := Some ''points'' \<rparr>)
       (Some (triangle_props\<lparr> connectivity := Some ''points'' \<rparr>))
   \<and> \<not> slot_changed Lines (triangle_props\<lparr> connectivity := Some ''points'' \<rparr>)
       (Some (triangle_props\<lparr> connectivity := Some ''points'' \<rparr>))
   \<and> \<not> slot_changed Polys (triangle_props\<lparr> connectivity := Some ''points'' \<rparr>)
       (Some (triangle_props\<lparr> connectivity := Some ''points'' \<rparr>))
   \<and> \<not> slot_changed Strips (triangle_props\<lparr> connectivity := Some ''points'' \<rparr>)
       (Some (triangle_props\<lparr> connectivity := Some ''points'' \<rparr>))
   \<and> new_calls (calls rendered_node)
        (calls (after (componentDidUpdate (triangle_props\<lparr> connectivity := Some ''points'' \<rparr>)
           (triangle_props\<lparr> connectivity := Some ''points'' \<rparr>) rendered_node)))
      = [Call_setData Verts (Uint32Array [3, 0, 1, 2]), Call_modified, Call_dataChanged 7]"
proof -
  let ?p = "triangle_props\<lparr> connectivity := Some ''points'' \<rparr>"
  let ?pts = "\<lparr> ref = 1, elems = [0, 0, 0, 1, 0, 0, 0, 1, 0] \<rparr>"
  have u: "\<not> slot_changed s ?p (Some ?p)" for s
    by (cases s) (simp_all add: slot_changed_def triangle_props_def defaultProps_def)
  have c: "\<not> cell_changed ?p (Some ?p)"
    using u by (simp add: cell_changed_iff)
  have pts: "points ?p = Some ?pts"
    by (simp add: triangle_props_def defaultProps_def)
  have w: "update_writes ?p (Some ?p) ?pts = [(Verts, Uint32Array [3, 0, 1, 2])]"
    using u [of Points]
    by (simp add: update_writes_def points_write_def implicit_block_def triangle_props_def
        defaultProps_def points_values_triangle)
  note n = new_calls_update [OF pts c, of rendered_node, unfolded w]
  show ?thesis
    by (simp add: u componentDidUpdate_def n rendered_node_representation)
qed

theorem C2_update_diff_witness:
  "update triangle_props (Some triangle_props) rendered_node = Inr rendered_node
   \<and> polydata (after (update triangle_props
        (Some (triangle_props\<lparr> points := Some \<lparr> ref = 11, elems = [0, 0, 0, 1, 0, 0, 0, 1, 0] \<rparr> \<rparr>))
        rendered_node)) Verts
       = polydata rendered_node Verts
   \<and> Call_setData Points (Float64Array [0, 0, 0, 1, 0, 0, 0, 1, 0])
       \<in> set (new_calls (calls rendered_node) (calls (after (update triangle_props
        (Some (triangle_props\<lparr> points := Some \<lparr> ref = 11, elems = [0, 0, 0, 1, 0, 0, 0, 1, 0] \<rparr> \<rparr>))
        rendered_node))))
   \<and> count_list (new_calls (calls rendered_node) (calls (after (update
        (triangle_props\<lparr> connectivity := Some ''strips'' \<rparr>)
        (Some (triangle_props\<lparr> connectivity := Some ''strips'' \<rparr>)) rendered_node)))) Call_modified = 1"
proof -
  let ?pts = "\<lparr> ref = 1, elems = [0, 0, 0, 1, 0, 0, 0, 1, 0] \<rparr>"
  let ?q = "triangle_props\<lparr> points := Some \<lparr> ref = 11, elems = [0, 0, 0, 1, 0, 0, 0, 1, 0] \<rparr> \<rparr>"
  let ?s = "triangle_props\<lparr> connectivity := Some ''strips'' \<rparr>"
  have pts: "points triangle_props = Some ?pts" "points ?s = Some ?pts"
    by (simp_all add: triangle_props_def defaultProps_def)
  have a: "update triangle_props (Some triangle_props) rendered_node = Inr rendered_node"
    using C2_update_diff [OF pts(1), of "Some triangle_props" rendered_node] triangle_props_unchanged
    by (simp add: implicit_mode_def triangle_props_def defaultProps_def)
  have b: "polydata (after (update triangle_props (Some ?q) rendered_node)) Verts = polydata rendered_node Verts"
    using C2_update_diff [OF pts(1), of "Some ?q" rendered_node]
    by (simp add: slot_changed_def implicit_block_def triangle_props_def defaultProps_def)
  have c: "Call_setData Points (Float64Array [0, 0, 0, 1, 0, 0, 0, 1, 0])
       \<in> set (new_calls (calls rendered_node) (calls (after (update triangle_props (Some ?q) rendered_node))))"
    using C2_update_diff [OF pts(1), of "Some ?q" rendered_node]
    by (simp add: slot_changed_def triangle_props_def defaultProps_def)
  have d: "count_list (new_calls (calls rendered_node) (calls (after (update ?s (Some ?s) rendered_node))))
       Call_modified = 1"
    using C2_update_diff [OF pts(2), of "Some ?s" rendered_node]
    by (simp add: implicit_mode_def cell_changed_def slot_changed_def triangle_props_def defaultProps_def)
  show ?thesis
    using a b c d by simp
qed

text \<open>
  An update that returns and writes at least one array calls, after the writes,
  \<open>modified()\<close> once and then \<open>dataChanged()\<close> once on the Representation the component holds,
  if it holds one.
\<close>

lemma single_notification:
  assumes "points props = Some pts" and "\<not> cell_changed props previous"
    and "slot_changed Points props previous \<or> implicit_mode (connectivity props)"
  shows "new_calls (calls this) (calls (after (update props previous this)))
           = map (\<lambda>(s, a). Call_setData s a) (update_writes props previous pts)
             @ Call_modified # (case representation this of None \<Rightarrow> [] | Some r \<Rightarrow> [Call_dataChanged r])"
proof -
  have "update_writes props previous pts \<noteq> []"
    using assms(3) by (auto simp: update_writes_Nil_iff)
  then show ?thesis
    using new_calls_update [OF assms(1,2), of this] by simp
qed

text \<open>
  Going from the mode \<open>points\<close> to \<open>manual\<close> with the same arrays changes the connectivity
  attribute, and the update calls neither \<open>modified()\<close> nor \<open>dataChanged()\<close>.
\<close>

lemma mode_change_without_notification:
  "componentDidUpdate (triangle_props\<lparr> connectivity := Some ''manual'' \<rparr>)
        (triangle_props\<lparr> connectivity := Some ''points'' \<rparr>) rendered_node = Inr rendered_node"
proof -
  let ?p = "triangle_props\<lparr> connectivity := Some ''manual'' \<rparr>"
  let ?q = "triangle_props\<lparr> connectivity := Some ''points'' \<rparr>"
  have u: "\<not> slot_changed s ?p (Some ?q)" for s
    by (cases s) (simp_all add: slot_changed_def triangle_props_def defaultProps_def)
  have c: "\<not> cell_changed ?p (Some ?q)"
    using u by (simp add: cell_changed_iff)
  have pts: "points ?p = Some \<lparr> ref = 1, elems = [0, 0, 0, 1, 0, 0, 0, 1, 0] \<rparr>"
    by (simp add: triangle_props_def defaultProps_def)
  have "update_writes ?p (Some ?q) \<lparr> ref = 1, elems = [0, 0, 0, 1, 0, 0, 0, 1, 0] \<rparr> = []"
    using u [of Points] by (simp add: update_writes_Nil_iff implicit_mode_def)
  then show ?thesis
    by (simp add: componentDidUpdate_def update_eq [OF pts c] notify_False)
qed

text \<open>
  C3 fails on the code. When the points, the vertex cells and the polygon cells are all
  replaced by new arrays (three attributes changed at once) in a component that holds the
  Representation 7, the update writes the points and raises a \<open>TypeError\<close> at
  \<open>cellFrom(verts)\<close>: it reaches neither \<open>modified()\<close> nor \<open>dataChanged()\<close>, where one of each is
  due.
\<close>

theorem C3_three_changes_no_notification:
  "representation rendered_node = Some 7
   \<and> componentDidUpdate triangle_props
        \<lparr> port = 0, points = Some \<lparr> ref = 11, elems = [0, 0, 0, 1, 0, 0, 0, 1, 0] \<rparr>,
          verts = Some \<lparr> ref = 12, elems = [1, 0] \<rparr>, lines = None,
          polys = Some \<lparr> ref = 13, elems = [3, 0, 1, 2] \<rparr>, strips = None,
          connectivity = Some ''manual'' \<rparr> rendered_node
       = Inl (TypeError, after (componentDidUpdate triangle_props
        \<lparr> port = 0, points = Some \<lparr> ref = 11, elems = [0, 0, 0, 1, 0, 0, 0, 1, 0] \<rparr>,
          verts = Some \<lparr> ref = 12, elems = [1, 0] \<rparr>, lines = None,
          polys = Some \<lparr> ref = 13, elems = [3, 0, 1, 2] \<rparr>, strips = None,
          connectivity = Some ''manual'' \<rparr> rendered_node))
   \<and> new_calls (calls rendered_node) (calls (after (componentDidUpdate triangle_props
        \<lparr> port = 0, points = Some \<lparr> ref = 11, elems = [0, 0, 0, 1, 0, 0, 0, 1, 0] \<rparr>,
          verts = Some \<lparr> ref = 12, elems = [1, 0] \<rparr>, lines = None,
          polys = Some \<lparr> ref = 13, elems = [3, 0, 1, 2] \<rparr>, strips = None,
          connectivity = Some ''manual'' \<rparr> rendered_node)))
       = [Call_setData Points (Float64Array [0, 0, 0, 1, 0, 0, 0, 1, 0])]"
proof -
  let ?q = "\<lparr> port = 0, points = Some \<lparr> ref = 11, elems = [0, 0, 0, 1, 0, 0, 0, 1, 0] \<rparr>,
          verts = Some \<lparr> ref = 12, elems = [1, 0] \<rparr>, lines = None,
          polys = Some \<lparr> ref = 13, elems = [3, 0, 1, 2] \<rparr>, strips = None,
          connectivity = Some ''manual'' \<rparr>"
  have v: "slot_changed Verts triangle_props (Some ?q)"
    by (simp add: slot_changed_def triangle_props_def defaultProps_def)
  have p: "points_write triangle_props (Some ?q) \<lparr> ref = 1, elems = [0, 0, 0, 1, 0, 0, 0, 1, 0] \<rparr>
      = [(Points, Float64Array [0, 0, 0, 1, 0, 0, 0, 1, 0])]"
    by (simp add: points_write_def slot_changed_def triangle_props_def defaultProps_def)
  have c: "cell_changed triangle_props (Some ?q)"
    using v by (auto simp: cell_changed_iff)
  have u: "update triangle_props (Some ?q) rendered_node
      = Inl (TypeError, do_writes [(Points, Float64Array [0, 0, 0, 1, 0, 0, 0, 1, 0])] rendered_node)"
    using update_raises_eq [OF triangle_props_points c, of rendered_node] unfolding p .
  show ?thesis
    by (simp add: componentDidUpdate_def u new_calls_def setData_def rendered_node_representation)
qed

section \<open>View: the order of the unmount\<close>

text \<open>
  C7. Unmounting a \<open>View\<close> whose objects are alive returns, and after removing the key
  listener and disconnecting the resize observer its calls are, in this order: unbind the
  interactor's events, detach the render surface from its container, remove the renderer
  from the render window, remove the render surface from the render window, then delete
  the interactor, the renderer, the render window and the render surface.
\<close>

theorem C7_unmount_order:
  assumes "v_resizeObserver this = Some ro" and "v_interactor this = Some i"
    and "v_openglRenderWindow this = Some gl" and "v_renderWindow this = Some rw"
    and "v_renderer this = Some r"
  shows "View_componentWillUnmount this = Inr (after (View_componentWillUnmount this))
       \<and> new_calls (v_calls this) (v_calls (after (View_componentWillUnmount this)))
           = [Document_removeEventListener_keyup, ResizeObserver_disconnect ro]
             @ [Interactor_unbindEvents i,
                RenderWindowView_setContainer gl None,
                RenderWindow_removeRenderer rw (Some r),
                RenderWindow_removeView rw (Some gl),
                Object_delete i, Object_delete r, Object_delete rw, Object_delete gl]"
  using assms
  by (simp add: View_componentWillUnmount_def v_call_def new_calls_def Let_def)

theorem C7_unmount_order_witness:
  "new_calls [] (v_calls (after (View_componentWillUnmount (View_mounted (Some \<lparr> width = 300, height = 200 \<rparr>)))))
     = [Document_removeEventListener_keyup, ResizeObserver_disconnect 5,
        Interactor_unbindEvents 4,
        RenderWindowView_setContainer 3 None,
        RenderWindow_removeRenderer 1 (Some 2),
        RenderWindow_removeView 1 (Some 3),
        Object_delete 4, Object_delete 2, Object_delete 1, Object_delete 3]"
  using C7_unmount_order [of "View_mounted (Some \<lparr> width = 300, height = 200 \<rparr>)" 5 4 3 1 2]
  by (simp add: View_mounted_def)

text \<open>A second unmount finds the fields \<open>null\<close> and raises.\<close>

lemma unmount_twice:
  "isl (View_componentWillUnmount (after (View_componentWillUnmount (View_mounted box))))"
  by (simp add: View_componentWillUnmount_def v_call_def View_mounted_def Let_def)

section \<open>View and MultiViewRoot: the size of the render surface\<close>

text \<open>
  C4 fails for \<open>View.onResize\<close>: it never reads the device pixel ratio and does not round.
  For a container of 100 by 50 the size set is 100 by 50 whatever the ratio, where the
  specification asks, at ratio 2, for \<open>max(floor(100 * 2), 10) = 200\<close> by
  \<open>max(floor(50 * 2), 10) = 100\<close>.
\<close>

theorem C4_View_ignores_pixel_ratio:
  "v_calls (after (View_onResize (View_mounted (Some \<lparr> width = 100, height = 50 \<rparr>))))
     = [RenderWindowView_setSize 3 100 50, RenderWindow_render 1]
   \<and> max \<lfloor>(100::real) * 2\<rfloor> 10 = 200 \<and> max \<lfloor>(50::real) * 2\<rfloor> 10 = 100"
  by (simp add: View_onResize_def View_mounted_def v_call_def)

text \<open>
  In general \<open>View.onResize\<close> sets the logical size with the minimum of 10, and
  \<open>MultiViewRoot.onResize\<close> sets the scaled size \<open>max(floor(width * d), 10)\<close> by
  \<open>max(floor(height * d), 10)\<close>, for a pixel ratio \<open>d\<close> that is not 0 and with the products
  as the machine computes them.
\<close>

lemma View_onResize_size:
  assumes "v_containerRef this = Some box" and "v_openglRenderWindow this = Some gl"
    and "v_renderWindow this = Some rw"
  shows "new_calls (v_calls this) (v_calls (after (View_onResize this)))
           = [RenderWindowView_setSize gl (max (width box) 10) (max (height box) 10), RenderWindow_render rw]"
  using assms by (simp add: View_onResize_def v_call_def new_calls_def)

lemma MultiViewRoot_onResize_size:
  assumes "m_containerRef this = Some box" and "m_renderWindowView this = Some view"
    and "m_renderWindow this = Some rw" and "window_devicePixelRatio this = Some d" and "d \<noteq> 0"
  shows "new_calls (m_calls this) (m_calls (after (MultiViewRoot_onResize times_double this)))
           = [RenderWindowView_setSize view (real_of_int (max \<lfloor>times_double (width box) d\<rfloor> 10))
                (real_of_int (max \<lfloor>times_double (height box) d\<rfloor> 10)), RenderWindow_render rw]"
  using assms
  by (simp add: MultiViewRoot_onResize_def m_call_def new_calls_def devicePixelRatio_or_1_def Let_def)

lemma MultiViewRoot_onResize_example:
  "m_calls (after (MultiViewRoot_onResize (*)
      (MultiViewRoot_constructor (Some \<lparr> width = 100, height = 0 \<rparr>) (Some 2))))
     = [RenderWindowView_setSize 2 200 10, RenderWindow_render 1]"
  by (simp add: MultiViewRoot_onResize_def MultiViewRoot_constructor_def m_call_def
      devicePixelRatio_or_1_def Let_def)

section \<open>MultiViewRoot: a render that is scheduled when the root unmounts\<close>

lemma mounted_root_eq:
  "mounted_root =
     \<lparr> m_containerRef = Some \<lparr> width = 300, height = 200 \<rparr>, m_renderWindow = Some 1,
       m_interactor = Some 3, m_renderWindowView = Some 2, m_resizeObserver = 4,
       m_initialized = True, m_renderViewTimeout = None, window_devicePixelRatio = Some 2,
       interactor_container = None, pending_timers = [], next_timer_id = 1,
       m_calls = [RenderWindowView_setContainer 2 (Some \<lparr> width = 300, height = 200 \<rparr>),
                  Interactor_initialize 3, ResizeObserver_observe 4,
                  RenderWindowView_setSize 2 600 400, RenderWindow_render 1] \<rparr>"
  by (simp add: mounted_root_def MultiViewRoot_componentDidMount_def MultiViewRoot_constructor_def
      MultiViewRoot_onResize_def MultiViewRoot_update_def m_call_def devicePixelRatio_or_1_def
      after_def Let_def)

lemma root_with_pending_render_eq:
  "root_with_pending_render =
     mounted_root\<lparr> pending_timers := [(1, render_of 1)], m_renderViewTimeout := Some 1,
                    next_timer_id := 2 \<rparr>"
  by (simp add: root_with_pending_render_def MultiViewRoot_componentDidUpdate_def
      MultiViewRoot_update_def mounted_root_eq)

text \<open>
  C1 fails on the code. A root whose \<open>triggerRender\<close> changed has one timer pending. Its
  unmount returns without raising, sets \<open>this.renderWindow\<close> to \<open>null\<close> and leaves the timer
  pending; when the timer fires, \<open>render\<close> is called on render window 1 after that render
  window has been deleted.
\<close>

theorem C1_render_after_unmount:
  "pending_timers root_with_pending_render = [(1, render_of 1)]
   \<and> MultiViewRoot_componentWillUnmount root_with_pending_render
       = Inr (after (MultiViewRoot_componentWillUnmount root_with_pending_render))
   \<and> m_renderWindow (after (MultiViewRoot_componentWillUnmount root_with_pending_render)) = None
   \<and> pending_timers (after (MultiViewRoot_componentWillUnmount root_with_pending_render))
       = [(1, render_of 1)]
   \<and> new_calls (m_calls root_with_pending_render)
        (m_calls (fire_timers (after (MultiViewRoot_componentWillUnmount root_with_pending_render))))
       = [ResizeObserver_disconnect 4, RenderWindowView_setContainer 2 None,
          RenderWindow_removeView 1 (Some 2),
          Object_delete 3, Object_delete 1, Object_delete 2,
          RenderWindow_render 1]"
  by (simp add: root_with_pending_render_eq mounted_root_eq MultiViewRoot_componentWillUnmount_def
      unmount_initialized_def m_call_def fire_timers_def new_calls_def Let_def)

text \<open>
  In general the unmount leaves every pending timer in place, and firing the timers calls
  \<open>render\<close> once for each of them.
\<close>

lemma unmount_keeps_timers:
  "pending_timers (after (MultiViewRoot_componentWillUnmount this)) = pending_timers this"
  by (simp add: MultiViewRoot_componentWillUnmount_def unmount_initialized_def m_call_def after_def Let_def
      split: option.splits sum.splits)

lemma calls_fold_run_callback:
  "m_calls (fold (\<lambda>t. run_callback (snd t)) ts this)
     = m_calls this @ map (\<lambda>t. case snd t of render_of rw \<Rightarrow> RenderWindow_render rw) ts"
proof (induction ts arbitrary: this)
  case Nil
  then show ?case by simp
next
  case (Cons t ts)
  then show ?case by (cases "snd t") (simp add: m_call_def)
qed

lemma fire_timers_calls:
  "m_calls (fire_timers this)
     = m_calls this @ map (\<lambda>t. case snd t of render_of rw \<Rightarrow> RenderWindow_render rw) (pending_timers this)"
  by (simp add: fire_timers_def calls_fold_run_callback)

end
